theory Spec2Isabelle
  imports Main "HOL-Library.Sublist"
begin

section \<open>pythonfinder.utils: name matching, version parsing, company inference\<close>

text \<open>
  Python strings are modelled as \<^typ>\<open>string\<close>, lists of 8-bit characters; on this
  range the regular-expression class \<^verbatim>\<open>\d\<close> is exactly \<^verbatim>\<open>[0-9]\<close>. The functions of
  \<^verbatim>\<open>utils.py\<close> that are decorated with \<^verbatim>\<open>lru_cache\<close> are pure, so the cache is not
  part of the model.
\<close>

subsection \<open>String primitives of the Python runtime\<close>

text \<open>\<^verbatim>\<open>str.lower\<close>: the upper-case letters of ASCII and of Latin-1 move up by 32.\<close>

definition lower_char :: "char \<Rightarrow> char" where
  "lower_char c =
     (let n = (of_char c :: nat) in
      if (65 \<le> n \<and> n \<le> 90) \<or> (192 \<le> n \<and> n \<le> 222 \<and> n \<noteq> 215)
      then char_of (n + 32) else c)"

definition str_lower :: "string \<Rightarrow> string" where
  "str_lower s = map lower_char s"

text \<open>\<^verbatim>\<open>s.startswith(p)\<close> and \<^verbatim>\<open>s.endswith(p)\<close>.\<close>

definition startswith :: "string \<Rightarrow> string \<Rightarrow> bool" where
  "startswith s p = (take (length p) s = p)"

definition endswith :: "string \<Rightarrow> string \<Rightarrow> bool" where
  "endswith s p = (length p \<le> length s \<and> drop (length s - length p) s = p)"

text \<open>\<^verbatim>\<open>sub in s\<close>: \<^verbatim>\<open>sub\<close> occurs in \<^verbatim>\<open>s\<close> as a contiguous substring.\<close>

fun str_contains :: "string \<Rightarrow> string \<Rightarrow> bool" where
  "str_contains sub [] = (sub = [])"
| "str_contains sub (c # cs) = (startswith (c # cs) sub \<or> str_contains sub cs)"

text \<open>\<^verbatim>\<open>sep.join(xs)\<close>.\<close>

fun str_join :: "string \<Rightarrow> string list \<Rightarrow> string" where
  "str_join sep [] = []"
| "str_join sep [x] = x"
| "str_join sep (x # y # ys) = x @ sep @ str_join sep (y # ys)"

text \<open>\<^verbatim>\<open>s.split(sep)\<close> for a separator of one character.\<close>

fun str_split :: "char \<Rightarrow> string \<Rightarrow> string list" where
  "str_split sep [] = [[]]"
| "str_split sep (c # cs) =
     (if c = sep then [] # str_split sep cs
      else (case str_split sep cs of [] \<Rightarrow> [[c]] | w # ws \<Rightarrow> (c # w) # ws))"

text \<open>
  \<^verbatim>\<open>s.rpartition(sep)[0]\<close> for a separator of one character: the text before the last
  occurrence of the separator, and the empty string when there is none.
\<close>

definition str_rpartition_head :: "char \<Rightarrow> string \<Rightarrow> string" where
  "str_rpartition_head sep s =
     (if sep \<in> set s then rev (tl (dropWhile (\<lambda>c. c \<noteq> sep) (rev s))) else [])"

text \<open>\<^verbatim>\<open>s.rfind(c)\<close>: the highest index of the character, or -1.\<close>

fun rfind_from :: "char \<Rightarrow> string \<Rightarrow> int \<Rightarrow> int" where
  "rfind_from c [] i = -1"
| "rfind_from c (x # xs) i =
     (let r = rfind_from c xs (i + 1) in
      if r \<noteq> -1 then r else if x = c then i else -1)"

definition str_rfind :: "string \<Rightarrow> char \<Rightarrow> int" where
  "str_rfind s c = rfind_from c s 0"

definition is_digit :: "char \<Rightarrow> bool" where
  "is_digit c = (c \<in> set ''0123456789'')"

text \<open>
  \<^verbatim>\<open>int(s)\<close> on a non-empty string of decimal digits; \<open>None\<close> stands for every other
  string, where Python raises \<^verbatim>\<open>ValueError\<close> (signs, blanks and underscores, which
  \<^verbatim>\<open>int\<close> also reads, never reach it here).
\<close>

definition digit_val :: "char \<Rightarrow> int" where
  "digit_val c = int (of_char c) - 48"

definition py_int :: "string \<Rightarrow> int option" where
  "py_int s =
     (if s \<noteq> [] \<and> list_all is_digit s
      then Some (foldl (\<lambda>acc c. 10 * acc + digit_val c) 0 s) else None)"

subsection \<open>The implementation table\<close>

definition PYTHON_IMPLEMENTATIONS :: "string list" where
  "PYTHON_IMPLEMENTATIONS =
     [''python'', ''ironpython'', ''jython'', ''pypy'', ''anaconda'', ''miniconda'',
      ''stackless'', ''activepython'', ''pyston'', ''micropython'']"

subsection \<open>Company inference\<close>

text \<open>
  \<^verbatim>\<open>non_core_pythons = [impl for impl in PYTHON_IMPLEMENTATIONS if impl != "python"]\<close>
\<close>

definition non_core_pythons :: "string list" where
  "non_core_pythons = filter (\<lambda>impl. impl \<noteq> ''python'') PYTHON_IMPLEMENTATIONS"

text \<open>
  \<^verbatim>\<open>next(iter(impl for impl in non_core_pythons if impl in path.lower()), "PythonCore")\<close>:
  the first element of the filtered generator, or the default when it is empty.
\<close>

definition guess_company :: "string \<Rightarrow> string" where
  "guess_company path =
     (case find (\<lambda>impl. str_contains impl (str_lower path)) non_core_pythons of
        Some impl \<Rightarrow> impl
      | None \<Rightarrow> ''PythonCore'')"

text \<open>
  \<^verbatim>\<open>if company: return company == "PythonCore"\<close>, \<^verbatim>\<open>return False\<close> otherwise; a string is
  truthy when it is not empty.
\<close>

definition path_is_pythoncore :: "string \<Rightarrow> bool" where
  "path_is_pythoncore path =
     (let company = guess_company path in
      if company \<noteq> [] then company = ''PythonCore'' else False)"

subsection \<open>Regular expressions: a backtracking matcher\<close>

text \<open>
  A pattern is a function from a matching state to the list of states in which a match of
  the pattern can end, in the order in which the backtracking engine of \<^verbatim>\<open>re\<close> tries them
  (greedy alternatives first). A state holds the text consumed so far, the text that
  remains, and the named groups that took part, latest first. \<^verbatim>\<open>pattern.match(s)\<close>
  succeeds when the list for the initial state is not empty, and its groups are those of
  the first state of the list. Groups without a name are not recorded: the code reads
  groups by name only.
\<close>

type_synonym groups = "(string \<times> string) list"
type_synonym mstate = "string \<times> string \<times> groups"
type_synonym matcher = "mstate \<Rightarrow> mstate list"

definition consumed :: "mstate \<Rightarrow> string" where
  "consumed st = fst st"

definition remaining :: "mstate \<Rightarrow> string" where
  "remaining st = fst (snd st)"

definition groups_of :: "mstate \<Rightarrow> groups" where
  "groups_of st = snd (snd st)"

text \<open>The empty pattern.\<close>

definition m_empty :: matcher where
  "m_empty st = [st]"

text \<open>One character of a class, such as \<^verbatim>\<open>\d\<close> or \<^verbatim>\<open>[abc]\<close>.\<close>

definition m_class :: "(char \<Rightarrow> bool) \<Rightarrow> matcher" where
  "m_class P st =
     (case remaining st of
        [] \<Rightarrow> []
      | c # r \<Rightarrow> if P c then [(consumed st @ [c], r, groups_of st)] else [])"

text \<open>A literal string.\<close>

definition m_lit :: "string \<Rightarrow> matcher" where
  "m_lit p st =
     (if startswith (remaining st) p
      then [(consumed st @ p, drop (length p) (remaining st), groups_of st)] else [])"

text \<open>Concatenation \<^verbatim>\<open>ab\<close>, alternation \<^verbatim>\<open>a|b\<close> and the greedy option \<^verbatim>\<open>a?\<close>.\<close>

definition m_seq :: "matcher \<Rightarrow> matcher \<Rightarrow> matcher" where
  "m_seq a b st = concat (map b (a st))"

definition m_alt :: "matcher \<Rightarrow> matcher \<Rightarrow> matcher" where
  "m_alt a b st = a st @ b st"

definition m_opt :: "matcher \<Rightarrow> matcher" where
  "m_opt a st = a st @ [st]"

definition m_seqs :: "matcher list \<Rightarrow> matcher" where
  "m_seqs ms = foldr m_seq ms m_empty"

definition m_alts :: "matcher list \<Rightarrow> matcher" where
  "m_alts ms st = concat (map (\<lambda>m. m st) ms)"

text \<open>
  The greedy star \<^verbatim>\<open>a*\<close>: one more round of \<^verbatim>\<open>a\<close> first, then none. A round that
  consumes nothing is not repeated.
\<close>

function m_star :: "matcher \<Rightarrow> matcher" where
  "m_star a st =
     concat (map (m_star a)
       (filter (\<lambda>st'. length (remaining st') < length (remaining st)) (a st))) @ [st]"
  by pat_completeness auto
termination
  by (relation "measure (\<lambda>(a, st). length (remaining st))") auto

declare m_star.simps [simp del]

text \<open>\<^verbatim>\<open>a+\<close> and the bounded greedy repetition \<^verbatim>\<open>a{0,n}\<close>.\<close>

definition m_plus :: "matcher \<Rightarrow> matcher" where
  "m_plus a = m_seq a (m_star a)"

fun m_upto :: "nat \<Rightarrow> matcher \<Rightarrow> matcher" where
  "m_upto 0 a st = [st]"
| "m_upto (Suc n) a st = concat (map (m_upto n a) (a st)) @ [st]"

text \<open>A named group \<^verbatim>\<open>(?P<n>a)\<close> records the text that \<^verbatim>\<open>a\<close> consumed.\<close>

definition m_group :: "string \<Rightarrow> matcher \<Rightarrow> matcher" where
  "m_group n a st =
     map (\<lambda>st'. (consumed st', remaining st',
                  (n, drop (length (consumed st)) (consumed st')) # groups_of st'))
       (a st)"

text \<open>
  The negative lookahead \<^verbatim>\<open>(?!a)\<close>, the lookbehind \<^verbatim>\<open>(?<=c)\<close> for one character of a
  class, and \<^verbatim>\<open>$\<close>, which matches at the end and before a final newline.
\<close>

definition m_not_ahead :: "matcher \<Rightarrow> matcher" where
  "m_not_ahead a st = (if a st = [] then [st] else [])"

definition m_behind :: "(char \<Rightarrow> bool) \<Rightarrow> matcher" where
  "m_behind P st = (if consumed st \<noteq> [] \<and> P (last (consumed st)) then [st] else [])"

definition m_end :: matcher where
  "m_end st = (if remaining st = [] \<or> remaining st = [CHR 0x0A] then [st] else [])"

text \<open>
  \<^verbatim>\<open>pattern.match(s)\<close>: \<open>None\<close> when there is no match at the start of \<open>s\<close>, and
  otherwise \<^verbatim>\<open>match.groupdict()\<close>, in which a group that took no part is \<open>None\<close>.
\<close>

definition re_match :: "matcher \<Rightarrow> string \<Rightarrow> (string \<rightharpoonup> string) option" where
  "re_match rx s =
     (case rx ([], s, []) of [] \<Rightarrow> None | st # _ \<Rightarrow> Some (map_of (groups_of st)))"

subsection \<open>The version grammar\<close>

text \<open>\<^verbatim>\<open>\d+\<close>\<close>

definition digits :: matcher where
  "digits = m_plus (m_class is_digit)"

text \<open>
  \<^verbatim>\<open>version_re_str = (
    r"(?P<major>\d+)(?:\.(?P<minor>\d+))?(?:\.(?P<patch>(?<=\.)[0-9]+))?\.?"
    r"(?:(?P<prerel>[abc]|rc|dev)(?:(?P<prerelversion>\d+(?:\.\d+)*))?)"
    r"?(?P<postdev>(\.post(?P<post>\d+))?(\.dev(?P<dev>\d+))?)?")\<close>
\<close>

definition version_re :: matcher where
  "version_re = m_seqs [
     m_group ''major'' digits,
     m_opt (m_seq (m_lit ''.'') (m_group ''minor'' digits)),
     m_opt (m_seq (m_lit ''.'')
        (m_group ''patch'' (m_seq (m_behind (\<lambda>c. c = CHR ''.'')) digits))),
     m_opt (m_lit ''.''),
     m_opt (m_seq
        (m_group ''prerel''
           (m_alts [m_class (\<lambda>c. c \<in> set ''abc''), m_lit ''rc'', m_lit ''dev'']))
        (m_opt (m_group ''prerelversion''
           (m_seq digits (m_star (m_seq (m_lit ''.'') digits)))))),
     m_opt (m_group ''postdev'' (m_seq
        (m_opt (m_seq (m_lit ''.post'') (m_group ''post'' digits)))
        (m_opt (m_seq (m_lit ''.dev'') (m_group ''dev'' digits)))))]"

text \<open>
  For the proofs: a string of digits that is not empty; the pattern after its first group;
  and the groups that the rest of the pattern may add, which never include \<open>major\<close> and
  hold digits where they are \<open>minor\<close> or \<open>patch\<close>.
\<close>

definition numeric :: "string \<Rightarrow> bool" where
  "numeric x \<longleftrightarrow> x \<noteq> [] \<and> list_all is_digit x"

definition version_re_rest :: matcher where
  "version_re_rest = m_seqs [
     m_opt (m_seq (m_lit ''.'') (m_group ''minor'' digits)),
     m_opt (m_seq (m_lit ''.'')
        (m_group ''patch'' (m_seq (m_behind (\<lambda>c. c = CHR ''.'')) digits))),
     m_opt (m_lit ''.''),
     m_opt (m_seq
        (m_group ''prerel''
           (m_alts [m_class (\<lambda>c. c \<in> set ''abc''), m_lit ''rc'', m_lit ''dev'']))
        (m_opt (m_group ''prerelversion''
           (m_seq digits (m_star (m_seq (m_lit ''.'') digits)))))),
     m_opt (m_group ''postdev'' (m_seq
        (m_opt (m_seq (m_lit ''.post'') (m_group ''post'' digits)))
        (m_opt (m_seq (m_lit ''.dev'') (m_group ''dev'' digits)))))]"

definition group_ok :: "string \<times> string \<Rightarrow> bool" where
  "group_ok e \<longleftrightarrow>
     fst e \<noteq> ''major'' \<and> (fst e = ''minor'' \<or> fst e = ''patch'' \<longrightarrow> numeric (snd e))"

definition adds_ok :: "matcher \<Rightarrow> bool" where
  "adds_ok a \<longleftrightarrow>
     (\<forall>st st'. st' \<in> set (a st) \<longrightarrow>
        (\<exists>g. groups_of st' = g @ groups_of st \<and> list_all group_ok g))"

subsection \<open>The name grammar and the rule table\<close>

text \<open>
  \<^verbatim>\<open>PY_MATCH_STR =
    r"((?P<implementation>{0})(?:\d?(?:\.\d[cpm]{{0,3}}))?(?:-?[\d\.]+)*(?!w))".format(
        "|".join(PYTHON_IMPLEMENTATIONS))\<close>
\<close>

definition PY_MATCH_STR :: matcher where
  "PY_MATCH_STR = m_seqs [
     m_group ''implementation'' (m_alts (map m_lit PYTHON_IMPLEMENTATIONS)),
     m_opt (m_seq (m_opt (m_class is_digit))
        (m_seqs [m_lit ''.'', m_class is_digit,
                 m_upto 3 (m_class (\<lambda>c. c \<in> set ''cpm''))])),
     m_star (m_seq (m_opt (m_lit ''-''))
        (m_plus (m_class (\<lambda>c. is_digit c \<or> c = CHR ''.'')))),
     m_not_ahead (m_lit ''w'')]"

text \<open>
  The pattern in two parts, for the proofs: the implementation group, and all that follows
  it.
\<close>

definition py_head :: matcher where
  "py_head = m_group ''implementation'' (m_alts (map m_lit PYTHON_IMPLEMENTATIONS))"

definition py_tail :: matcher where
  "py_tail = m_seqs [
     m_opt (m_seq (m_opt (m_class is_digit))
        (m_seqs [m_lit ''.'', m_class is_digit,
                 m_upto 3 (m_class (\<lambda>c. c \<in> set ''cpm''))])),
     m_star (m_seq (m_opt (m_lit ''-''))
        (m_plus (m_class (\<lambda>c. is_digit c \<or> c = CHR ''.'')))),
     m_not_ahead (m_lit ''w'')]"

text \<open>\<^verbatim>\<open>RE_MATCHER = re.compile(rf"({version_re_str}|{PY_MATCH_STR})")\<close>\<close>

definition RE_MATCHER :: matcher where
  "RE_MATCHER = m_alt version_re PY_MATCH_STR"

text \<open>
  The module reads the platform once, when it is imported: \<^verbatim>\<open>os.name == "nt"\<close> and
  \<^verbatim>\<open>os.environ.get("PATHEXT", "")\<close>; \<^verbatim>\<open>os.pathsep\<close> is \<^verbatim>\<open>;\<close> on Windows and \<^verbatim>\<open>:\<close>
  elsewhere.
\<close>

record environment =
  os_name_nt :: bool
  PATHEXT :: string

definition os_pathsep :: "environment \<Rightarrow> char" where
  "os_pathsep env = (if os_name_nt env then CHR '';'' else CHR '':'')"

text \<open>
  The platform of the examples: not Windows, \<^verbatim>\<open>PATHEXT\<close> not set.
\<close>

definition posix_env :: environment where
  "posix_env = \<lparr>os_name_nt = False, PATHEXT = []\<rparr>"

text \<open>
  \<^verbatim>\<open>KNOWN_EXTS\<close> is a Python set; it is listed here in one order, and the code only asks
  for membership or iterates over all of it.
\<close>

definition KNOWN_EXTS :: "environment \<Rightarrow> string list" where
  "KNOWN_EXTS env =
     (if os_name_nt env then [''exe'', ''py'', ''bat'', '''']
      else [''sh'', ''bash'', ''csh'', ''zsh'', ''fish'', ''py'', ''''])
     @ filter (\<lambda>e. e \<noteq> []) (str_split (os_pathsep env) (PATHEXT env))"

text \<open>Each entry of \<^verbatim>\<open>RULES_BASE\<close> is a template, \<^verbatim>\<open>rule.format(impl)\<close> fills it.\<close>

definition RULES_BASE :: "(string \<Rightarrow> string) list" where
  "RULES_BASE =
     [\<lambda>impl. ''*'' @ impl,
      \<lambda>impl. ''*'' @ impl @ ''?'',
      \<lambda>impl. ''*'' @ impl @ ''?.?'',
      \<lambda>impl. ''*'' @ impl @ ''?.?m'',
      \<lambda>impl. impl @ ''?-?.?'',
      \<lambda>impl. impl @ ''?-?.?.?'',
      \<lambda>impl. impl @ ''?.?-?.?.?'']"

definition RULES :: "string list" where
  "RULES = concat (map (\<lambda>impl. map (\<lambda>rule. rule impl) RULES_BASE) PYTHON_IMPLEMENTATIONS)"

definition MATCH_RULES :: "environment \<Rightarrow> string list" where
  "MATCH_RULES env =
     concat (map (\<lambda>rule.
        map (\<lambda>ext. if ext \<noteq> [] then rule @ ''.'' @ ext else rule) (KNOWN_EXTS env)) RULES)"

text \<open>
  \<^verbatim>\<open>fnmatch.fnmatchcase(name, pat)\<close>: \<^verbatim>\<open>*\<close> matches any text and \<^verbatim>\<open>?\<close> one character;
  every other character stands for itself. Bracket classes are not modelled: no rule has
  one unless \<^verbatim>\<open>PATHEXT\<close> brings it.
\<close>

fun fnmatchcase :: "string \<Rightarrow> string \<Rightarrow> bool" where
  "fnmatchcase name [] = (name = [])"
| "fnmatchcase name (p # ps) =
     (if p = CHR ''*'' then
        fnmatchcase name ps \<or> (case name of [] \<Rightarrow> False | c # cs \<Rightarrow> fnmatchcase cs (p # ps))
      else (case name of [] \<Rightarrow> False
            | c # cs \<Rightarrow> (p = CHR ''?'' \<or> p = c) \<and> fnmatchcase cs ps))"

text \<open>
  \<^verbatim>\<open>os.path.normcase\<close>: on Windows it lower-cases and turns \<^verbatim>\<open>/\<close> into a backslash, and
  elsewhere it changes nothing. \<^verbatim>\<open>fnmatch.fnmatch\<close> applies it to both arguments.
\<close>

definition normcase :: "environment \<Rightarrow> string \<Rightarrow> string" where
  "normcase env s =
     (if os_name_nt env
      then str_lower (map (\<lambda>c. if c = CHR ''/'' then CHR 0x5C else c) s) else s)"

definition fnmatch :: "environment \<Rightarrow> string \<Rightarrow> string \<Rightarrow> bool" where
  "fnmatch env name pat = fnmatchcase (normcase env name) (normcase env pat)"

text \<open>
  \<^verbatim>\<open>if not any(name.lower().startswith(py_name) for py_name in PYTHON_IMPLEMENTATIONS):
      return False
  match = RE_MATCHER.match(name)
  if match:
      return any(fnmatch(name, rule) for rule in MATCH_RULES)
  return False\<close>
\<close>

definition looks_like_python :: "environment \<Rightarrow> string \<Rightarrow> bool" where
  "looks_like_python env name =
     (if \<not> list_ex (\<lambda>py_name. startswith (str_lower name) py_name) PYTHON_IMPLEMENTATIONS
      then False
      else if re_match RE_MATCHER name \<noteq> None
      then list_ex (\<lambda>rule. fnmatch env name rule) (MATCH_RULES env)
      else False)"

subsection \<open>Paths\<close>

text \<open>
  A \<^verbatim>\<open>pathlib.Path\<close> is taken by what the code reads of it: \<^verbatim>\<open>str(path)\<close> and
  \<^verbatim>\<open>path.name\<close>, its final component. The file system answers \<^verbatim>\<open>os.access(p, os.X_OK)\<close>
  and \<^verbatim>\<open>os.access(p, os.R_OK)\<close>.
\<close>

record Path =
  path_str :: string
  path_name :: string

record filesystem =
  access_X_OK :: "string \<Rightarrow> bool"
  access_R_OK :: "string \<Rightarrow> bool"

text \<open>
  \<^verbatim>\<open>Path.suffix\<close> of pathlib:
  \<^verbatim>\<open>i = name.rfind('.')\<close>, then \<^verbatim>\<open>name[i:]\<close> if \<^verbatim>\<open>0 < i < len(name) - 1\<close> and
  \<^verbatim>\<open>''\<close> otherwise. The suffix keeps its leading dot.
\<close>

definition path_suffix :: "Path \<Rightarrow> string" where
  "path_suffix path =
     (let name = path_name path; i = str_rfind name CHR ''.'' in
      if 0 < i \<and> i < int (length name) - 1 then drop (nat i) name else [])"

definition path_is_executable :: "filesystem \<Rightarrow> Path \<Rightarrow> bool" where
  "path_is_executable fs path = access_X_OK fs (path_str path)"

definition path_is_known_executable :: "environment \<Rightarrow> filesystem \<Rightarrow> Path \<Rightarrow> bool" where
  "path_is_known_executable env fs path =
     (path_is_executable fs path
      \<or> (access_R_OK fs (path_str path) \<and> path_suffix path \<in> set (KNOWN_EXTS env)))"

definition path_is_python :: "environment \<Rightarrow> filesystem \<Rightarrow> Path \<Rightarrow> bool" where
  "path_is_python env fs path =
     (path_is_executable fs path \<and> looks_like_python env (path_name path))"

subsection \<open>The version parser\<close>

text \<open>
  The exceptions that can leave \<^verbatim>\<open>parse_python_version\<close>: its own
  \<^verbatim>\<open>InvalidPythonVersion\<close>, \<^verbatim>\<open>InvalidVersion\<close> of the \<^verbatim>\<open>packaging\<close> library, and
  \<^verbatim>\<open>ValueError\<close> of \<^verbatim>\<open>int\<close>.
\<close>

datatype error = InvalidPythonVersion string | InvalidVersion string | ValueError string

text \<open>The dictionary that \<^verbatim>\<open>parse_python_version\<close> returns.\<close>

record 'v parsed_version =
  major :: "int option"
  minor :: "int option"
  patch :: "int option"
  is_postrelease :: bool
  is_prerelease :: bool
  is_devrelease :: bool
  is_debug :: bool
  version :: "'v option"

text \<open>Truth of an optional string: \<^verbatim>\<open>None\<close> and \<^verbatim>\<open>""\<close> are false.\<close>

definition truthy :: "string option \<Rightarrow> bool" where
  "truthy x = (case x of None \<Rightarrow> False | Some s \<Rightarrow> s \<noteq> [])"

text \<open>\<^verbatim>\<open>int(version_dict.get(k, 0)) if version_dict.get(k) else None\<close>\<close>

definition int_or_None :: "string option \<Rightarrow> error + int option" where
  "int_or_None x =
     (case x of
        None \<Rightarrow> Inr None
      | Some s \<Rightarrow>
          if s = [] then Inr None
          else (case py_int s of None \<Rightarrow> Inl (ValueError s) | Some i \<Rightarrow> Inr (Some i)))"

text \<open>
  The canonical string of the fallback:
  \<^verbatim>\<open>v_dict = version_dict.copy()
  pre = ""
  if v_dict.get("prerel") and v_dict.get("prerelversion"):
      pre = v_dict.pop("prerel")
      pre = "{}{}".format(pre, v_dict.pop("prerelversion"))
  v_dict["pre"] = pre
  keys = ["major", "minor", "patch", "pre", "postdev", "post", "dev"]
  values = [v_dict.get(val) for val in keys]
  version_str = ".".join([str(v) for v in values if v])\<close>
\<close>

definition canonical_version_str :: "(string \<rightharpoonup> string) \<Rightarrow> string" where
  "canonical_version_str version_dict =
     (let v_dict = version_dict;
          popped = truthy (v_dict ''prerel'') \<and> truthy (v_dict ''prerelversion'');
          pre = (if popped
                 then (case v_dict ''prerel'' of None \<Rightarrow> [] | Some p \<Rightarrow> p)
                      @ (case v_dict ''prerelversion'' of None \<Rightarrow> [] | Some n \<Rightarrow> n)
                 else []);
          v_dict = (if popped then v_dict(''prerel'' := None, ''prerelversion'' := None)
                    else v_dict);
          v_dict = v_dict(''pre'' \<mapsto> pre);
          keys = [''major'', ''minor'', ''patch'', ''pre'', ''postdev'', ''post'', ''dev''];
          values = map v_dict keys
      in str_join ''.'' (concat (map (\<lambda>v. if truthy v then [the v] else []) values)))"

text \<open>
  The strict normaliser \<^verbatim>\<open>packaging.version.parse\<close> is a parameter \<open>parse_version\<close>: it
  returns a version, or \<open>None\<close> where the library raises \<^verbatim>\<open>InvalidVersion\<close>.

  \<open>parse_stripped\<close> is the function from \<^verbatim>\<open>match = version_re.match(version_str)\<close> to
  its end, with \<^verbatim>\<open>is_debug\<close> and \<^verbatim>\<open>version_str\<close> as the first lines leave them. The
  second call of the normaliser stands outside the \<^verbatim>\<open>try\<close>, so there the exception
  leaves the function. The statement \<^verbatim>\<open>if patch: patch = int(patch)\<close> leaves an integer
  as it is.
\<close>

definition parse_stripped ::
  "(string \<Rightarrow> 'v option) \<Rightarrow> bool \<Rightarrow> string \<Rightarrow> error + 'v parsed_version" where
  "parse_stripped parse_version debug version_str =
     (case re_match version_re version_str of
        None \<Rightarrow> Inl (InvalidPythonVersion (version_str @ '' is not a python version''))
      | Some version_dict \<Rightarrow>
         (case int_or_None (version_dict ''major'') of Inl e \<Rightarrow> Inl e | Inr major' \<Rightarrow>
          case int_or_None (version_dict ''minor'') of Inl e \<Rightarrow> Inl e | Inr minor' \<Rightarrow>
          case int_or_None (version_dict ''patch'') of Inl e \<Rightarrow> Inl e | Inr patch' \<Rightarrow>
          let result = (\<lambda>v. \<lparr>major = major', minor = minor', patch = patch',
                             is_postrelease = truthy (version_dict ''post''),
                             is_prerelease = truthy (version_dict ''prerel''),
                             is_devrelease = truthy (version_dict ''dev''),
                             is_debug = debug, version = Some v\<rparr>)
          in case parse_version version_str of
               Some v \<Rightarrow> Inr (result v)
             | None \<Rightarrow>
                (let version_str = canonical_version_str version_dict
                 in case parse_version version_str of
                      None \<Rightarrow> Inl (InvalidVersion version_str)
                    | Some v \<Rightarrow> Inr (result v))))"

text \<open>
  \<^verbatim>\<open>is_debug = False
  if version_str.endswith("-debug"):
      is_debug = True
      version_str, _, _ = version_str.rpartition("-")\<close>
\<close>

definition parse_python_version ::
  "(string \<Rightarrow> 'v option) \<Rightarrow> string \<Rightarrow> error + 'v parsed_version" where
  "parse_python_version parse_version version_str =
     (if endswith version_str ''-debug''
      then parse_stripped parse_version True (str_rpartition_head CHR ''-'' version_str)
      else parse_stripped parse_version False version_str)"

text \<open>
  For the proofs: the dictionary that is returned for a match \<open>version_dict\<close> and a
  normalised version \<open>v\<close>.
\<close>

definition parsed_result ::
  "(string \<rightharpoonup> string) \<Rightarrow> bool \<Rightarrow> 'v \<Rightarrow> 'v parsed_version" where
  "parsed_result version_dict debug v =
     \<lparr>major = Option.bind (version_dict ''major'') py_int,
      minor = Option.bind (version_dict ''minor'') py_int,
      patch = Option.bind (version_dict ''patch'') py_int,
      is_postrelease = truthy (version_dict ''post''),
      is_prerelease = truthy (version_dict ''prerel''),
      is_devrelease = truthy (version_dict ''dev''),
      is_debug = debug, version = Some v\<rparr>"

subsection \<open>The strict normaliser of the packaging library\<close>

text \<open>
  Modelled from the spec: the strict version-normalisation library
  (\<^verbatim>\<open>packaging.version\<close>, \<^verbatim>\<open>normalize(string) -> ComparableVersion | raises\<close>) is an
  external dependency and not part of the sources. The model follows the pattern of the
  library, which is the grammar of PEP 440:
  \<^verbatim>\<open>v?
  (?:
      (?:(?P<epoch>[0-9]+)!)?
      (?P<release>[0-9]+(?:\.[0-9]+)*)
      (?P<pre>[-_\.]?(?P<pre_l>alpha|a|beta|b|preview|pre|c|rc)[-_\.]?(?P<pre_n>[0-9]+)?)?
      (?P<post>(?:-(?P<post_n1>[0-9]+))
               |(?:[-_\.]?(?P<post_l>post|rev|r)[-_\.]?(?P<post_n2>[0-9]+)?))?
      (?P<dev>[-_\.]?(?P<dev_l>dev)[-_\.]?(?P<dev_n>[0-9]+)?)?
  )
  (?:\+(?P<local>[a-z0-9]+(?:[-_\.][a-z0-9]+)*))?\<close>
  searched as \<^verbatim>\<open>^\s*\<close> pattern \<^verbatim>\<open>\s*$\<close>, ignoring case. A version is kept as the
  string it was read from.
\<close>

definition is_sep :: "char \<Rightarrow> bool" where
  "is_sep c = (c \<in> set ''-_.'')"

definition is_lower_alnum :: "char \<Rightarrow> bool" where
  "is_lower_alnum c = (c \<in> set ''abcdefghijklmnopqrstuvwxyz0123456789'')"

definition is_space :: "char \<Rightarrow> bool" where
  "is_space c =
     (c \<in> set [CHR '' '', CHR 0x09, CHR 0x0A, CHR 0x0B, CHR 0x0C, CHR 0x0D,
               CHR 0x1C, CHR 0x1D, CHR 0x1E, CHR 0x1F, CHR 0x85, CHR 0xA0])"

definition VERSION_PATTERN :: matcher where
  "VERSION_PATTERN = m_seqs [
     m_opt (m_lit ''v''),
     m_opt (m_seq (m_group ''epoch'' digits) (m_lit ''!'')),
     m_group ''release'' (m_seq digits (m_star (m_seq (m_lit ''.'') digits))),
     m_opt (m_group ''pre'' (m_seqs [
        m_opt (m_class is_sep),
        m_group ''pre_l'' (m_alts (map m_lit
           [''alpha'', ''a'', ''beta'', ''b'', ''preview'', ''pre'', ''c'', ''rc''])),
        m_opt (m_class is_sep),
        m_opt (m_group ''pre_n'' digits)])),
     m_opt (m_group ''post'' (m_alt
        (m_seq (m_lit ''-'') (m_group ''post_n1'' digits))
        (m_seqs [
           m_opt (m_class is_sep),
           m_group ''post_l'' (m_alts (map m_lit [''post'', ''rev'', ''r''])),
           m_opt (m_class is_sep),
           m_opt (m_group ''post_n2'' digits)]))),
     m_opt (m_group ''dev'' (m_seqs [
        m_opt (m_class is_sep),
        m_group ''dev_l'' (m_lit ''dev''),
        m_opt (m_class is_sep),
        m_opt (m_group ''dev_n'' digits)])),
     m_opt (m_seq (m_lit ''+'')
        (m_group ''local'' (m_seq (m_plus (m_class is_lower_alnum))
           (m_star (m_seq (m_class is_sep) (m_plus (m_class is_lower_alnum)))))))]"

definition Version_regex :: matcher where
  "Version_regex =
     m_seqs [m_star (m_class is_space), VERSION_PATTERN, m_star (m_class is_space), m_end]"

datatype Version = Version string

definition packaging_parse :: "string \<Rightarrow> Version option" where
  "packaging_parse s =
     (case re_match Version_regex (str_lower s) of
        None \<Rightarrow> None
      | Some _ \<Rightarrow> Some (Version s))"

section \<open>Properties\<close>

subsection \<open>Strings\<close>

lemma startswith_prefix: "startswith s p \<longleftrightarrow> prefix p s"
  unfolding startswith_def prefix_def
  by (metis append_eq_conv_conj append_take_drop_id)

lemma str_contains_sublist: "str_contains sub s \<longleftrightarrow> sublist sub s"
proof (induction s)
  case Nil
  show ?case by simp
next
  case (Cons c cs)
  show ?case
    by (simp add: Cons.IH startswith_prefix sublist_Cons_right)
qed

subsection \<open>Company inference\<close>

lemma non_core_pythons_eq:
  "non_core_pythons =
     [''ironpython'', ''jython'', ''pypy'', ''anaconda'', ''miniconda'',
      ''stackless'', ''activepython'', ''pyston'', ''micropython'']"
  by (simp add: non_core_pythons_def PYTHON_IMPLEMENTATIONS_def)

lemma guess_company_pypy3: "guess_company ''/usr/bin/pypy3'' = ''pypy''"
  by code_simp

lemma guess_company_python39: "guess_company ''/usr/bin/python3.9'' = ''PythonCore''"
  by code_simp

lemma guess_company_first:
  assumes "i < length non_core_pythons"
    and "sublist (non_core_pythons ! i) (str_lower path)"
    and "\<forall>j<i. \<not> sublist (non_core_pythons ! j) (str_lower path)"
  shows "guess_company path = non_core_pythons ! i"
proof -
  have "find (\<lambda>impl. str_contains impl (str_lower path)) non_core_pythons
          = Some (non_core_pythons ! i)"
    unfolding find_Some_iff using assms by (auto simp: str_contains_sublist)
  then show ?thesis by (simp add: guess_company_def)
qed

lemma guess_company_default:
  assumes "\<forall>impl \<in> set non_core_pythons. \<not> sublist impl (str_lower path)"
  shows "guess_company path = ''PythonCore''"
proof -
  have "find (\<lambda>impl. str_contains impl (str_lower path)) non_core_pythons = None"
    unfolding find_None_iff using assms by (simp add: str_contains_sublist)
  then show ?thesis by (simp add: guess_company_def)
qed

text \<open>
  C6: \<open>guess_company\<close> returns the first name of the non-core table, in the declared order
  ironpython, jython, pypy, anaconda, miniconda, stackless, activepython, pyston,
  micropython, that occurs as a substring of the lower-cased path, and \<open>PythonCore\<close> when
  none occurs; \<open>/usr/bin/pypy3\<close> gives \<open>pypy\<close> and \<open>/usr/bin/python3.9\<close> gives \<open>PythonCore\<close>.
\<close>

theorem guess_company_spec:
  "non_core_pythons =
     [''ironpython'', ''jython'', ''pypy'', ''anaconda'', ''miniconda'',
      ''stackless'', ''activepython'', ''pyston'', ''micropython'']
   \<and> (\<forall>i. i < length non_core_pythons
          \<and> sublist (non_core_pythons ! i) (str_lower path)
          \<and> (\<forall>j<i. \<not> sublist (non_core_pythons ! j) (str_lower path))
        \<longrightarrow> guess_company path = non_core_pythons ! i)
   \<and> ((\<forall>impl \<in> set non_core_pythons. \<not> sublist impl (str_lower path))
        \<longrightarrow> guess_company path = ''PythonCore'')
   \<and> guess_company ''/usr/bin/pypy3'' = ''pypy''
   \<and> guess_company ''/usr/bin/python3.9'' = ''PythonCore''"
  using non_core_pythons_eq guess_company_first guess_company_default
    guess_company_pypy3 guess_company_python39
  by blast

theorem guess_company_spec_witness:
  "non_core_pythons ! 2 = ''pypy''
   \<and> sublist ''pypy'' (str_lower ''/opt/PyPy/bin/python'')
   \<and> guess_company ''/opt/PyPy/bin/python'' = ''pypy''
   \<and> guess_company ''/usr/local/bin/python3'' = ''PythonCore''"
proof -
  have idx: "non_core_pythons ! 2 = ''pypy''" "(2::nat) < length non_core_pythons"
    by (simp_all add: non_core_pythons_eq)
  have low: "str_lower ''/opt/PyPy/bin/python'' = ''/opt/pypy/bin/python''"
    by code_simp
  have sub: "sublist ''pypy'' (str_lower ''/opt/PyPy/bin/python'')"
    unfolding low by code_simp
  have none: "\<forall>j<2. \<not> sublist (non_core_pythons ! j) (str_lower ''/opt/PyPy/bin/python'')"
  proof (intro allI impI)
    fix j :: nat assume "j < 2"
    then have "j = 0 \<or> j = 1" by arith
    then show "\<not> sublist (non_core_pythons ! j) (str_lower ''/opt/PyPy/bin/python'')"
      unfolding low non_core_pythons_eq by (elim disjE; simp; code_simp)
  qed
  have low2: "str_lower ''/usr/local/bin/python3'' = ''/usr/local/bin/python3''"
    by code_simp
  have none2: "\<forall>impl \<in> set non_core_pythons. \<not> sublist impl (str_lower ''/usr/local/bin/python3'')"
    unfolding low2 non_core_pythons_eq by (simp; code_simp)
  from guess_company_spec [of "''/opt/PyPy/bin/python''"] idx sub none
  have a: "guess_company ''/opt/PyPy/bin/python'' = ''pypy''"
    by metis
  from guess_company_spec [of "''/usr/local/bin/python3''"] none2
  have b: "guess_company ''/usr/local/bin/python3'' = ''PythonCore''"
    by blast
  from idx sub a b show ?thesis by simp
qed

text \<open>
  C7: \<open>path_is_pythoncore p\<close> is true exactly when \<open>guess_company p\<close> is \<open>PythonCore\<close>.
\<close>

theorem path_is_pythoncore_iff:
  "path_is_pythoncore p \<longleftrightarrow> guess_company p = ''PythonCore''"
  by (auto simp: path_is_pythoncore_def Let_def)

theorem path_is_pythoncore_iff_witness:
  "path_is_pythoncore ''/usr/bin/python3.9'' \<and> \<not> path_is_pythoncore ''/usr/bin/pypy3''"
  using path_is_pythoncore_iff [of "''/usr/bin/python3.9''"]
    path_is_pythoncore_iff [of "''/usr/bin/pypy3''"]
    guess_company_python39 guess_company_pypy3
  by simp

subsection \<open>The name matcher\<close>

lemma m_seq_mem: "x \<in> set (a st) \<Longrightarrow> y \<in> set (b x) \<Longrightarrow> y \<in> set (m_seq a b st)"
  by (auto simp: m_seq_def)

lemma m_seq_Nil: "a st = [] \<Longrightarrow> m_seq a b st = []"
  by (simp add: m_seq_def)

lemma m_seq_all_Nil: "\<forall>x \<in> set (a st). b x = [] \<Longrightarrow> m_seq a b st = []"
  by (simp add: m_seq_def)

lemma m_seq_not_Nil: "m_seq a b st \<noteq> [] \<longleftrightarrow> (\<exists>x \<in> set (a st). b x \<noteq> [])"
  by (simp add: m_seq_def)

lemma m_opt_self: "st \<in> set (m_opt a st)"
  by (simp add: m_opt_def)

lemma m_star_self: "st \<in> set (m_star a st)"
  by (subst m_star.simps) simp

lemma m_star_Nil: "a st = [] \<Longrightarrow> m_star a st = [st]"
  by (subst m_star.simps) simp

lemma m_seqs_Cons: "m_seqs (m # ms) = m_seq m (m_seqs ms)"
  by (simp add: m_seqs_def)

lemma m_seqs_Nil: "m_seqs [] = m_empty"
  by (simp add: m_seqs_def)

lemma m_class_fail: "remaining st = [] \<or> \<not> P (hd (remaining st)) \<Longrightarrow> m_class P st = []"
  by (auto simp: m_class_def split: list.splits)

lemma m_lit_fail: "\<not> startswith (remaining st) p \<Longrightarrow> m_lit p st = []"
  by (simp add: m_lit_def)

lemma digits_fail: "remaining st = [] \<or> \<not> is_digit (hd (remaining st)) \<Longrightarrow> digits st = []"
  by (simp add: digits_def m_plus_def m_seq_Nil m_class_fail)

lemma m_group_Nil: "a st = [] \<Longrightarrow> m_group n a st = []"
  by (simp add: m_group_def)

lemma version_re_fail:
  "remaining st = [] \<or> \<not> is_digit (hd (remaining st)) \<Longrightarrow> version_re st = []"
  by (simp add: version_re_def m_seqs_Cons m_seq_Nil m_group_Nil digits_fail)

lemma PY_MATCH_STR_split: "PY_MATCH_STR = m_seq py_head py_tail"
  by (simp add: PY_MATCH_STR_def py_head_def py_tail_def m_seqs_Cons)

lemma py_head_set:
  "set (py_head ([], name, [])) =
     {(impl, drop (length impl) name, [(''implementation'', impl)]) | impl.
        impl \<in> set PYTHON_IMPLEMENTATIONS \<and> startswith name impl}"
  by (force simp: py_head_def m_group_def m_alts_def m_lit_def consumed_def remaining_def
      groups_of_def)

lemma m_seqs3_Nil:
  "a st = [st] \<Longrightarrow> b st = [st] \<Longrightarrow> c st = [] \<Longrightarrow> m_seqs [a, b, c] st = []"
  by (simp add: m_seqs_def m_seq_def)

lemma py_tail_w: 
  assumes "startswith (remaining st) ''w''"
  shows "py_tail st = []"
proof -
  obtain r where r: "remaining st = CHR ''w'' # r"
    using assms by (cases "remaining st") (auto simp: startswith_def)
  have nd: "m_class is_digit st = []"
    by (rule m_class_fail) (simp add: r is_digit_def)
  have nl: "m_lit ''.'' st = []" "m_lit ''-'' st = []"
    by (simp_all add: m_lit_def r startswith_def)
  have ndd: "m_class (\<lambda>c. is_digit c \<or> c = CHR ''.'') st = []"
    by (rule m_class_fail) (simp add: r is_digit_def)
  have o1: "m_opt (m_seq (m_opt (m_class is_digit))
        (m_seqs [m_lit ''.'', m_class is_digit,
                 m_upto 3 (m_class (\<lambda>c. c \<in> set ''cpm''))])) st = [st]"
    by (simp add: m_opt_def m_seq_def nd m_seqs_Cons nl)
  have s1: "m_star (m_seq (m_opt (m_lit ''-''))
        (m_plus (m_class (\<lambda>c. is_digit c \<or> c = CHR ''.'')))) st = [st]"
    by (rule m_star_Nil) (simp add: m_seq_def m_opt_def nl m_plus_def ndd)
  have w: "m_not_ahead (m_lit ''w'') st = []"
    by (simp add: m_not_ahead_def m_lit_def assms)
  show ?thesis
    unfolding py_tail_def by (rule m_seqs3_Nil; fact)
qed

lemma py_tail_not_w: 
  assumes "\<not> startswith (remaining st) ''w''"
  shows "py_tail st \<noteq> []"
proof -
  have w: "st \<in> set (m_seqs [m_not_ahead (m_lit ''w'')] st)"
    by (simp add: m_seqs_Cons m_seqs_Nil m_seq_def m_not_ahead_def m_lit_def assms m_empty_def)
  have "st \<in> set (py_tail st)"
    unfolding py_tail_def
    apply (subst m_seqs_Cons)
    apply (rule m_seq_mem [OF m_opt_self])
    apply (subst m_seqs_Cons)
    apply (rule m_seq_mem [OF m_star_self])
    apply (rule w)
    done
  then show ?thesis by auto
qed

lemma PY_MATCH_STR_iff:
  "PY_MATCH_STR ([], name, []) \<noteq> [] \<longleftrightarrow>
     (\<exists>impl \<in> set PYTHON_IMPLEMENTATIONS.
        startswith name impl \<and> \<not> startswith (drop (length impl) name) ''w'')"
proof -
  have "PY_MATCH_STR ([], name, []) \<noteq> [] \<longleftrightarrow>
     (\<exists>x \<in> set (py_head ([], name, [])). py_tail x \<noteq> [])"
    by (simp add: PY_MATCH_STR_split m_seq_not_Nil)
  also have "\<dots> \<longleftrightarrow> (\<exists>x \<in> set (py_head ([], name, [])). \<not> startswith (remaining x) ''w'')"
    using py_tail_w py_tail_not_w by blast
  also have "\<dots> \<longleftrightarrow> (\<exists>impl \<in> set PYTHON_IMPLEMENTATIONS.
        startswith name impl \<and> \<not> startswith (drop (length impl) name) ''w'')"
    unfolding py_head_set by (auto simp: remaining_def)
  finally show ?thesis .
qed

lemma implementations_letter:
  "impl \<in> set PYTHON_IMPLEMENTATIONS \<Longrightarrow> impl \<noteq> [] \<and> \<not> is_digit (hd impl)"
  by (auto simp: PYTHON_IMPLEMENTATIONS_def is_digit_def)

lemma implementations_lower:
  "impl \<in> set PYTHON_IMPLEMENTATIONS \<Longrightarrow> str_lower impl = impl"
  unfolding PYTHON_IMPLEMENTATIONS_def by (auto; code_simp)

lemma implementations_prefix_free:
  "a \<in> set PYTHON_IMPLEMENTATIONS \<Longrightarrow> b \<in> set PYTHON_IMPLEMENTATIONS \<Longrightarrow> prefix a b \<Longrightarrow> a = b"
  unfolding PYTHON_IMPLEMENTATIONS_def set_simps insert_iff empty_iff
  by (elim disjE; simp)

lemma is_digit_lower: "is_digit c \<Longrightarrow> lower_char c = c"
  unfolding is_digit_def by (auto; code_simp)

lemma implementations_unique_prefix:
  assumes "a \<in> set PYTHON_IMPLEMENTATIONS" "b \<in> set PYTHON_IMPLEMENTATIONS"
    and "startswith s a" "startswith s b"
  shows "a = b"
proof -
  have "prefix a s" "prefix b s" using assms by (simp_all add: startswith_prefix)
  then have "prefix a b \<or> prefix b a" by (rule prefix_same_cases)
  then show ?thesis using assms implementations_prefix_free by metis
qed

lemma startswith_append:
  "startswith s (p @ q) \<longleftrightarrow> startswith s p \<and> startswith (drop (length p) s) q"
  by (auto simp: startswith_prefix prefix_def)

lemma startswith_lower: "startswith s p \<Longrightarrow> startswith (str_lower s) (str_lower p)"
  by (auto simp: startswith_prefix prefix_def str_lower_def)

lemma re_match_None: "re_match rx s = None \<longleftrightarrow> rx ([], s, []) = []"
  by (simp add: re_match_def split: list.splits)

lemma re_match_RE_MATCHER:
  "re_match RE_MATCHER name = None \<longleftrightarrow>
     version_re ([], name, []) = [] \<and> PY_MATCH_STR ([], name, []) = []"
  by (simp add: re_match_None RE_MATCHER_def m_alt_def)

lemma prefix_check_version_re:
  assumes "impl \<in> set PYTHON_IMPLEMENTATIONS" "startswith (str_lower name) impl"
  shows "version_re ([], name, []) = []"
proof -
  from assms(1) have i: "impl \<noteq> []" "\<not> is_digit (hd impl)"
    using implementations_letter by auto
  from assms(2) i(1) obtain c cs where n: "name = c # cs" "lower_char c = hd impl"
    by (cases name; cases impl) (auto simp: startswith_def str_lower_def)
  have "\<not> is_digit c"
    using is_digit_lower [of c] n(2) i(2) by auto
  then show ?thesis
    by (intro version_re_fail) (simp add: remaining_def n)
qed

lemma looks_like_python_iff:
  "looks_like_python env name \<longleftrightarrow>
     (\<exists>impl \<in> set PYTHON_IMPLEMENTATIONS.
         startswith name impl \<and> \<not> startswith name (impl @ ''w''))
     \<and> (\<exists>rule \<in> set (MATCH_RULES env). fnmatch env name rule)"
  (is "?L \<longleftrightarrow> ?I \<and> ?R")
proof
  assume L: ?L
  then have pre: "list_ex (\<lambda>py_name. startswith (str_lower name) py_name) PYTHON_IMPLEMENTATIONS"
    and re: "re_match RE_MATCHER name \<noteq> None"
    and R: "list_ex (\<lambda>rule. fnmatch env name rule) (MATCH_RULES env)"
    by (auto simp: looks_like_python_def split: if_splits)
  from pre obtain impl where "impl \<in> set PYTHON_IMPLEMENTATIONS" "startswith (str_lower name) impl"
    by (auto simp: list_ex_iff)
  then have "version_re ([], name, []) = []" by (rule prefix_check_version_re)
  with re have "PY_MATCH_STR ([], name, []) \<noteq> []"
    using re_match_RE_MATCHER [of name] by auto
  then have ?I by (auto simp: PY_MATCH_STR_iff startswith_append)
  moreover from R have ?R by (simp add: list_ex_iff)
  ultimately show "?I \<and> ?R" by simp
next
  assume IR: "?I \<and> ?R"
  then obtain impl where impl: "impl \<in> set PYTHON_IMPLEMENTATIONS" "startswith name impl"
    "\<not> startswith name (impl @ ''w'')" by auto
  have "startswith (str_lower name) impl"
    using startswith_lower [OF impl(2)] implementations_lower [OF impl(1)] by simp
  with impl(1) have pre: "list_ex (\<lambda>py_name. startswith (str_lower name) py_name) PYTHON_IMPLEMENTATIONS"
    by (auto simp: list_ex_iff)
  have "PY_MATCH_STR ([], name, []) \<noteq> []"
    unfolding PY_MATCH_STR_iff using impl by (auto simp: startswith_append)
  then have re: "re_match RE_MATCHER name \<noteq> None"
    using re_match_RE_MATCHER [of name] by auto
  from IR have R: "list_ex (\<lambda>rule. fnmatch env name rule) (MATCH_RULES env)"
    by (simp add: list_ex_iff)
  from pre re R show ?L by (simp add: looks_like_python_def)
qed

lemma implementation_w_rejected:
  assumes "impl \<in> set PYTHON_IMPLEMENTATIONS"
  shows "re_match RE_MATCHER (impl @ ''w'' @ rest) = None"
    and "\<not> looks_like_python env (impl @ ''w'' @ rest)"
proof -
  let ?name = "impl @ ''w'' @ rest"
  have sw: "startswith ?name impl" by (simp add: startswith_def)
  have "startswith (str_lower ?name) impl"
    using startswith_lower [OF sw] implementations_lower [OF assms] by simp
  then have v: "version_re ([], ?name, []) = []"
    using assms prefix_check_version_re by blast
  have "\<And>impl'. impl' \<in> set PYTHON_IMPLEMENTATIONS \<Longrightarrow> startswith ?name impl'
          \<Longrightarrow> startswith (drop (length impl') ?name) ''w''"
  proof -
    fix impl' assume "impl' \<in> set PYTHON_IMPLEMENTATIONS" "startswith ?name impl'"
    then have "impl' = impl" using implementations_unique_prefix assms sw by blast
    then show "startswith (drop (length impl') ?name) ''w''" by (simp add: startswith_def)
  qed
  then have p: "PY_MATCH_STR ([], ?name, []) = []"
    using PY_MATCH_STR_iff [of ?name] by blast
  from v p show r: "re_match RE_MATCHER ?name = None"
    using re_match_RE_MATCHER [of ?name] by auto
  then show "\<not> looks_like_python env ?name"
    by (simp add: looks_like_python_def)
qed

lemma mixed_case_rejected:
  assumes "impl \<in> set PYTHON_IMPLEMENTATIONS" "startswith (str_lower name) impl"
    and "take (length impl) name \<noteq> impl"
  shows "\<not> looks_like_python env name"
proof
  assume "looks_like_python env name"
  then obtain impl' where i: "impl' \<in> set PYTHON_IMPLEMENTATIONS" "startswith name impl'"
    by (auto simp: looks_like_python_iff)
  have "startswith (str_lower name) impl'"
    using startswith_lower [OF i(2)] implementations_lower [OF i(1)] by simp
  then have "impl' = impl"
    using implementations_unique_prefix i(1) assms(1,2) by blast
  with i(2) assms(3) show False by (simp add: startswith_def)
qed

lemma pythonw_prefix: "startswith (str_lower ''pythonw'') ''python''"
  by code_simp

lemma pythonw_rule:
  "''*python?'' \<in> set (MATCH_RULES posix_env) \<and> fnmatch posix_env ''pythonw'' ''*python?''"
  by code_simp

lemma pythonw_rejected: "\<not> looks_like_python posix_env ''pythonw''"
  by code_simp

lemma Pythonpython_prefix: "startswith (str_lower ''Pythonpython'') ''python''"
  by code_simp

lemma Pythonpython_rule:
  "''*python'' \<in> set (MATCH_RULES posix_env) \<and> fnmatch posix_env ''Pythonpython'' ''*python''"
  by code_simp

lemma Pythonpython_rejected: "\<not> looks_like_python posix_env ''Pythonpython''"
  by code_simp

lemma python_in_table: "''python'' \<in> set PYTHON_IMPLEMENTATIONS"
  by (simp add: PYTHON_IMPLEMENTATIONS_def)

text \<open>
  C3, as stated, fails: \<open>pythonw\<close> starts with \<open>python\<close> and matches the rule
  \<open>*python?\<close>, and \<open>Pythonpython\<close> starts with \<open>python\<close> when case is ignored and
  matches the rule \<open>*python\<close>, yet \<open>looks_like_python\<close> rejects both.
\<close>

theorem looks_like_python_rule_counterexample:
  "''python'' \<in> set PYTHON_IMPLEMENTATIONS
   \<and> startswith (str_lower ''pythonw'') ''python''
   \<and> ''*python?'' \<in> set (MATCH_RULES posix_env)
   \<and> fnmatch posix_env ''pythonw'' ''*python?''
   \<and> \<not> looks_like_python posix_env ''pythonw''
   \<and> startswith (str_lower ''Pythonpython'') ''python''
   \<and> ''*python'' \<in> set (MATCH_RULES posix_env)
   \<and> fnmatch posix_env ''Pythonpython'' ''*python''
   \<and> \<not> looks_like_python posix_env ''Pythonpython''"
  using python_in_table pythonw_prefix pythonw_rule pythonw_rejected
    Pythonpython_prefix Pythonpython_rule Pythonpython_rejected
  by simp

text \<open>
  C3, amended: a name that starts with a recognized implementation name as the table
  writes it (lower case), not followed at once by \<open>w\<close>, and that matches at least one rule
  of the table, looks like Python; a name that starts with no recognized implementation
  name, case ignored, does not, whatever its extension.
\<close>

theorem looks_like_python_rule:
  "((\<exists>impl \<in> set PYTHON_IMPLEMENTATIONS.
        startswith name impl \<and> \<not> startswith name (impl @ ''w''))
      \<and> (\<exists>rule \<in> set (MATCH_RULES env). fnmatch env name rule)
      \<longrightarrow> looks_like_python env name)
   \<and> ((\<forall>impl \<in> set PYTHON_IMPLEMENTATIONS. \<not> startswith (str_lower name) impl)
      \<longrightarrow> \<not> looks_like_python env name)"
proof (intro conjI impI)
  assume "(\<exists>impl \<in> set PYTHON_IMPLEMENTATIONS.
        startswith name impl \<and> \<not> startswith name (impl @ ''w''))
      \<and> (\<exists>rule \<in> set (MATCH_RULES env). fnmatch env name rule)"
  then show "looks_like_python env name" by (simp add: looks_like_python_iff)
next
  assume "\<forall>impl \<in> set PYTHON_IMPLEMENTATIONS. \<not> startswith (str_lower name) impl"
  then show "\<not> looks_like_python env name"
    by (simp add: looks_like_python_def list_ex_iff)
qed

theorem looks_like_python_rule_witness:
  "looks_like_python posix_env ''python3.9'' \<and> \<not> looks_like_python posix_env ''ruby3.9.sh''"
proof -
  have a: "startswith ''python3.9'' ''python'' \<and> \<not> startswith ''python3.9'' (''python'' @ ''w'')"
    by code_simp
  have b: "''*python?.?'' \<in> set (MATCH_RULES posix_env)
           \<and> fnmatch posix_env ''python3.9'' ''*python?.?''"
    by code_simp
  have c: "\<forall>impl \<in> set PYTHON_IMPLEMENTATIONS. \<not> startswith (str_lower ''ruby3.9.sh'') impl"
    by code_simp
  from looks_like_python_rule [of "''python3.9''" posix_env] python_in_table a b
  have "looks_like_python posix_env ''python3.9''" by blast
  moreover from looks_like_python_rule [of "''ruby3.9.sh''" posix_env] c
  have "\<not> looks_like_python posix_env ''ruby3.9.sh''" by blast
  ultimately show ?thesis by simp
qed

text \<open>
  C5: \<open>looks_like_python\<close> rejects \<open>pythonw.exe\<close> on every platform, and the name grammar
  matches no name in which an implementation name is followed at once by \<open>w\<close>, so that
  \<open>looks_like_python\<close> rejects every such name.
\<close>

theorem looks_like_python_w_suffix:
  "\<not> looks_like_python env ''pythonw.exe''
   \<and> (\<forall>impl \<in> set PYTHON_IMPLEMENTATIONS.
         re_match RE_MATCHER (impl @ ''w'' @ rest) = None
         \<and> \<not> looks_like_python env (impl @ ''w'' @ rest))"
proof -
  have "\<not> looks_like_python env (''python'' @ ''w'' @ ''.exe'')"
    using python_in_table by (rule implementation_w_rejected(2))
  then have "\<not> looks_like_python env ''pythonw.exe''" by simp
  then show ?thesis using implementation_w_rejected by blast
qed

theorem looks_like_python_w_suffix_witness:
  "''pypy'' \<in> set PYTHON_IMPLEMENTATIONS
   \<and> re_match RE_MATCHER ''pypyw3'' = None
   \<and> \<not> looks_like_python posix_env ''pypyw3''"
proof -
  have m: "''pypy'' \<in> set PYTHON_IMPLEMENTATIONS"
    by (simp add: PYTHON_IMPLEMENTATIONS_def)
  from looks_like_python_w_suffix [of posix_env "''3''"] m
  have "re_match RE_MATCHER (''pypy'' @ ''w'' @ ''3'') = None
        \<and> \<not> looks_like_python posix_env (''pypy'' @ ''w'' @ ''3'')"
    by blast
  with m show ?thesis by simp
qed

text \<open>
  C10: the prefix filter ignores case and the name grammar does not, so a name whose
  leading implementation name is not written in lower case throughout, such as
  \<open>Python3.9\<close>, is rejected.
\<close>

theorem looks_like_python_case_sensitive:
  "(\<forall>impl \<in> set PYTHON_IMPLEMENTATIONS.
       startswith (str_lower name) impl \<and> take (length impl) name \<noteq> impl
       \<longrightarrow> \<not> looks_like_python env name)
   \<and> \<not> looks_like_python env ''Python3.9''"
proof -
  have a: "startswith (str_lower ''Python3.9'') ''python''" by code_simp
  have b: "take (length ''python'') ''Python3.9'' \<noteq> ''python''" by simp
  have "\<not> looks_like_python env ''Python3.9''"
    using python_in_table a b by (rule mixed_case_rejected)
  then show ?thesis using mixed_case_rejected by blast
qed

theorem looks_like_python_case_sensitive_witness:
  "startswith (str_lower ''PyPy3'') ''pypy''
   \<and> take (length ''pypy'') ''PyPy3'' \<noteq> ''pypy''
   \<and> \<not> looks_like_python posix_env ''PyPy3''"
proof -
  have m: "''pypy'' \<in> set PYTHON_IMPLEMENTATIONS"
    by (simp add: PYTHON_IMPLEMENTATIONS_def)
  have a: "startswith (str_lower ''PyPy3'') ''pypy''" by code_simp
  have b: "take (length ''pypy'') ''PyPy3'' \<noteq> ''pypy''" by simp
  from looks_like_python_case_sensitive [of "''PyPy3''" posix_env] m a b
  have "\<not> looks_like_python posix_env ''PyPy3''" by blast
  with a b show ?thesis by simp
qed

subsection \<open>The version grammar\<close>

lemma adds_okI:
  "(\<And>st st'. st' \<in> set (a st) \<Longrightarrow> \<exists>g. groups_of st' = g @ groups_of st \<and> list_all group_ok g)
     \<Longrightarrow> adds_ok a"
  unfolding adds_ok_def by blast

lemma adds_okD:
  "adds_ok a \<Longrightarrow> st' \<in> set (a st) \<Longrightarrow> \<exists>g. groups_of st' = g @ groups_of st \<and> list_all group_ok g"
  unfolding adds_ok_def by blast

lemma adds_ok_empty: "adds_ok m_empty"
  by (rule adds_okI) (simp add: m_empty_def)

lemma adds_ok_class: "adds_ok (m_class P)"
  by (rule adds_okI) (auto simp: m_class_def groups_of_def split: list.splits if_splits)

lemma adds_ok_lit: "adds_ok (m_lit p)"
  by (rule adds_okI) (auto simp: m_lit_def groups_of_def split: if_splits)

lemma adds_ok_behind: "adds_ok (m_behind P)"
  by (rule adds_okI) (auto simp: m_behind_def split: if_splits)

lemma adds_ok_seq:
  assumes "adds_ok a" "adds_ok b"
  shows "adds_ok (m_seq a b)"
proof (rule adds_okI)
  fix st st' assume "st' \<in> set (m_seq a b st)"
  then obtain x where x: "x \<in> set (a st)" "st' \<in> set (b x)"
    by (auto simp: m_seq_def)
  from adds_okD [OF assms(1) x(1)] obtain g where g: "groups_of x = g @ groups_of st" "list_all group_ok g"
    by blast
  from adds_okD [OF assms(2) x(2)] obtain h where h: "groups_of st' = h @ groups_of x" "list_all group_ok h"
    by blast
  from g h have "groups_of st' = (h @ g) @ groups_of st \<and> list_all group_ok (h @ g)"
    by simp
  then show "\<exists>g. groups_of st' = g @ groups_of st \<and> list_all group_ok g" by blast
qed

lemma adds_ok_opt: "adds_ok a \<Longrightarrow> adds_ok (m_opt a)"
  by (rule adds_okI) (auto simp: m_opt_def dest: adds_okD)

lemma adds_ok_alts: "(\<And>a. a \<in> set ms \<Longrightarrow> adds_ok a) \<Longrightarrow> adds_ok (m_alts ms)"
  by (rule adds_okI) (auto simp: m_alts_def dest: adds_okD)

lemma adds_ok_star_aux:
  "adds_ok a \<Longrightarrow> st' \<in> set (m_star a st)
     \<Longrightarrow> \<exists>g. groups_of st' = g @ groups_of st \<and> list_all group_ok g"
proof (induction a st arbitrary: st' rule: m_star.induct)
  case (1 a st)
  from "1.prems"(2) have
    "st' = st \<or> (\<exists>x \<in> set (a st). length (remaining x) < length (remaining st)
                    \<and> st' \<in> set (m_star a x))"
    by (subst (asm) m_star.simps) auto
  then show ?case
  proof
    assume "st' = st"
    then show ?thesis by simp
  next
    assume "\<exists>x \<in> set (a st). length (remaining x) < length (remaining st)
                    \<and> st' \<in> set (m_star a x)"
    then obtain x where x: "x \<in> set (a st)" "length (remaining x) < length (remaining st)"
      "st' \<in> set (m_star a x)" by blast
    from adds_okD [OF "1.prems"(1) x(1)] obtain g where
      g: "groups_of x = g @ groups_of st" "list_all group_ok g" by blast
    from "1.IH" [of x st'] x "1.prems"(1) obtain h where
      h: "groups_of st' = h @ groups_of x" "list_all group_ok h" by auto
    from g h have "groups_of st' = (h @ g) @ groups_of st \<and> list_all group_ok (h @ g)"
      by simp
    then show ?thesis by blast
  qed
qed

lemma adds_ok_star: "adds_ok a \<Longrightarrow> adds_ok (m_star a)"
  by (rule adds_okI) (rule adds_ok_star_aux)

lemma adds_ok_plus: "adds_ok a \<Longrightarrow> adds_ok (m_plus a)"
  by (simp add: m_plus_def adds_ok_seq adds_ok_star)

lemma adds_ok_digits: "adds_ok digits"
  by (simp add: digits_def adds_ok_plus adds_ok_class)

lemma adds_ok_group:
  assumes "adds_ok a" "\<And>v. group_ok (n, v)"
  shows "adds_ok (m_group n a)"
proof (rule adds_okI)
  fix st st' assume "st' \<in> set (m_group n a st)"
  then obtain x where x: "x \<in> set (a st)"
    "groups_of st' = (n, drop (length (consumed st)) (consumed x)) # groups_of x"
    by (auto simp: m_group_def groups_of_def)
  from adds_okD [OF assms(1) x(1)] obtain g where g: "groups_of x = g @ groups_of st" "list_all group_ok g"
    by blast
  let ?e = "(n, drop (length (consumed st)) (consumed x))"
  from x g assms(2) have "groups_of st' = (?e # g) @ groups_of st \<and> list_all group_ok (?e # g)"
    by simp
  then show "\<exists>g. groups_of st' = g @ groups_of st \<and> list_all group_ok g" by blast
qed

lemma star_digit_consumes:
  "st' \<in> set (m_star (m_class P) st)
     \<Longrightarrow> \<exists>y. consumed st' = consumed st @ y \<and> list_all P y \<and> groups_of st' = groups_of st"
proof (induction "m_class P" st arbitrary: st' rule: m_star.induct)
  case (1 st)
  from "1.prems" have
    "st' = st \<or> (\<exists>x \<in> set (m_class P st). length (remaining x) < length (remaining st)
                    \<and> st' \<in> set (m_star (m_class P) x))"
    by (subst (asm) m_star.simps) auto
  then show ?case
  proof
    assume "st' = st"
    then show ?thesis by simp
  next
    assume "\<exists>x \<in> set (m_class P st). length (remaining x) < length (remaining st)
                    \<and> st' \<in> set (m_star (m_class P) x)"
    then obtain x where x: "x \<in> set (m_class P st)" "length (remaining x) < length (remaining st)"
      "st' \<in> set (m_star (m_class P) x)" by blast
    from x(1) obtain c where c: "P c" "consumed x = consumed st @ [c]" "groups_of x = groups_of st"
      by (auto simp: m_class_def consumed_def groups_of_def split: list.splits if_splits)
    from "1.hyps" [of x st'] x obtain y where
      y: "consumed st' = consumed x @ y" "list_all P y" "groups_of st' = groups_of x" by auto
    from c y have "consumed st' = consumed st @ (c # y) \<and> list_all P (c # y)
        \<and> groups_of st' = groups_of st" by simp
    then show ?thesis by blast
  qed
qed

lemma digits_consumes:
  assumes "st' \<in> set (digits st)"
  shows "\<exists>x. numeric x \<and> consumed st' = consumed st @ x \<and> groups_of st' = groups_of st"
proof -
  from assms obtain m where m: "m \<in> set (m_class is_digit st)" "st' \<in> set (m_star (m_class is_digit) m)"
    by (auto simp: digits_def m_plus_def m_seq_def)
  from m(1) obtain c where c: "is_digit c" "consumed m = consumed st @ [c]" "groups_of m = groups_of st"
    by (auto simp: m_class_def consumed_def groups_of_def split: list.splits if_splits)
  from star_digit_consumes [OF m(2)] obtain y where
    y: "consumed st' = consumed m @ y" "list_all is_digit y" "groups_of st' = groups_of m" by blast
  from c y have "numeric (c # y) \<and> consumed st' = consumed st @ (c # y) \<and> groups_of st' = groups_of st"
    by (simp add: numeric_def)
  then show ?thesis by blast
qed

lemma group_digits:
  assumes "st' \<in> set (m_group n digits st)"
  shows "\<exists>x. numeric x \<and> groups_of st' = (n, x) # groups_of st"
proof -
  from assms obtain m where m: "m \<in> set (digits st)"
    "groups_of st' = (n, drop (length (consumed st)) (consumed m)) # groups_of m"
    by (auto simp: m_group_def groups_of_def)
  from digits_consumes [OF m(1)] obtain x where
    "numeric x" "consumed m = consumed st @ x" "groups_of m = groups_of st" by blast
  with m(2) show ?thesis by simp
qed

lemma group_behind_digits:
  assumes "st' \<in> set (m_group n (m_seq (m_behind P) digits) st)"
  shows "\<exists>x. numeric x \<and> groups_of st' = (n, x) # groups_of st"
proof -
  from assms obtain m where m: "m \<in> set (digits st)"
    "groups_of st' = (n, drop (length (consumed st)) (consumed m)) # groups_of m"
    by (auto simp: m_group_def groups_of_def m_seq_def m_behind_def split: if_splits)
  from digits_consumes [OF m(1)] obtain x where
    "numeric x" "consumed m = consumed st @ x" "groups_of m = groups_of st" by blast
  with m(2) show ?thesis by simp
qed

lemma adds_ok_minor: "adds_ok (m_group ''minor'' digits)"
proof (rule adds_okI)
  fix st st' assume "st' \<in> set (m_group ''minor'' digits st)"
  from group_digits [OF this] obtain x where "numeric x" "groups_of st' = (''minor'', x) # groups_of st"
    by blast
  then have "groups_of st' = [(''minor'', x)] @ groups_of st \<and> list_all group_ok [(''minor'', x)]"
    by (simp add: group_ok_def)
  then show "\<exists>g. groups_of st' = g @ groups_of st \<and> list_all group_ok g" by blast
qed

lemma adds_ok_patch: "adds_ok (m_group ''patch'' (m_seq (m_behind P) digits))"
proof (rule adds_okI)
  fix st st' assume "st' \<in> set (m_group ''patch'' (m_seq (m_behind P) digits) st)"
  from group_behind_digits [OF this] obtain x where "numeric x" "groups_of st' = (''patch'', x) # groups_of st"
    by blast
  then have "groups_of st' = [(''patch'', x)] @ groups_of st \<and> list_all group_ok [(''patch'', x)]"
    by (simp add: group_ok_def)
  then show "\<exists>g. groups_of st' = g @ groups_of st \<and> list_all group_ok g" by blast
qed

lemma version_re_split: "version_re = m_seq (m_group ''major'' digits) version_re_rest"
  by (simp add: version_re_def version_re_rest_def m_seqs_Cons)

lemma adds_ok_rest: "adds_ok version_re_rest"
  unfolding version_re_rest_def m_seqs_Cons m_seqs_Nil
  by (intro adds_ok_seq adds_ok_opt adds_ok_lit adds_ok_minor adds_ok_patch adds_ok_empty
      adds_ok_group adds_ok_alts adds_ok_digits adds_ok_star adds_ok_class)
    (auto simp: group_ok_def adds_ok_class adds_ok_lit)

lemma map_of_ok_major: "list_all group_ok g \<Longrightarrow> map_of (g @ h) ''major'' = map_of h ''major''"
  by (induction g) (auto simp: group_ok_def)

lemma map_of_ok_numeric:
  "list_all group_ok g \<Longrightarrow> k = ''minor'' \<or> k = ''patch''
     \<Longrightarrow> map_of (g @ [(''major'', x)]) k = Some v \<Longrightarrow> numeric v"
  by (induction g) (auto simp: group_ok_def split: if_splits)

lemma version_re_groups:
  assumes "st' \<in> set (version_re ([], s, []))"
  shows "(\<exists>x. map_of (groups_of st') ''major'' = Some x \<and> numeric x)
       \<and> (\<forall>v. map_of (groups_of st') ''minor'' = Some v \<longrightarrow> numeric v)
       \<and> (\<forall>v. map_of (groups_of st') ''patch'' = Some v \<longrightarrow> numeric v)"
proof -
  from assms obtain m where m: "m \<in> set (m_group ''major'' digits ([], s, []))"
    "st' \<in> set (version_re_rest m)"
    by (auto simp: version_re_split m_seq_def)
  from group_digits [OF m(1)] obtain x where x: "numeric x" "groups_of m = [(''major'', x)]"
    by (auto simp: groups_of_def)
  from adds_okD [OF adds_ok_rest m(2)] x(2) obtain g where
    g: "groups_of st' = g @ [(''major'', x)]" "list_all group_ok g" by auto
  have mj: "map_of (groups_of st') ''major'' = Some x"
    using g map_of_ok_major [of g "[(''major'', x)]"] by simp
  have mn: "\<And>v. map_of (groups_of st') ''minor'' = Some v \<Longrightarrow> numeric v"
    unfolding g(1) using map_of_ok_numeric [OF g(2), of "''minor''" x] by blast
  have pt: "\<And>v. map_of (groups_of st') ''patch'' = Some v \<Longrightarrow> numeric v"
    unfolding g(1) using map_of_ok_numeric [OF g(2), of "''patch''" x] by blast
  from mj x(1) mn pt show ?thesis by blast
qed

lemma re_match_version_re:
  assumes "re_match version_re s = Some version_dict"
  shows "(\<exists>x. version_dict ''major'' = Some x \<and> numeric x)
       \<and> (\<forall>v. version_dict ''minor'' = Some v \<longrightarrow> numeric v)
       \<and> (\<forall>v. version_dict ''patch'' = Some v \<longrightarrow> numeric v)"
proof -
  from assms obtain st' where "st' \<in> set (version_re ([], s, []))"
    "version_dict = map_of (groups_of st')"
    by (auto simp: re_match_def split: list.splits)
  then show ?thesis using version_re_groups by blast
qed


subsection \<open>The version parser\<close>

lemma numeric_py_int: "numeric x \<Longrightarrow> py_int x \<noteq> None"
  by (simp add: numeric_def py_int_def)

lemma int_or_None_numeric:
  assumes "\<And>v. x = Some v \<Longrightarrow> numeric v"
  shows "int_or_None x = Inr (Option.bind x py_int)"
proof (cases x)
  case None
  then show ?thesis by (simp add: int_or_None_def)
next
  case (Some v)
  then have "numeric v" using assms by simp
  then have "v \<noteq> []" "py_int v \<noteq> None" by (simp_all add: numeric_def py_int_def)
  with Some show ?thesis by (auto simp: int_or_None_def)
qed

lemma parse_stripped_None:
  "re_match version_re s = None
     \<Longrightarrow> parse_stripped pv debug s = Inl (InvalidPythonVersion (s @ '' is not a python version''))"
  by (simp add: parse_stripped_def)

lemma parse_stripped_Some:
  assumes "re_match version_re s = Some version_dict"
  shows "parse_stripped pv debug s =
     (case pv s of
        Some v \<Rightarrow> Inr (parsed_result version_dict debug v)
      | None \<Rightarrow>
         (case pv (canonical_version_str version_dict) of
            None \<Rightarrow> Inl (InvalidVersion (canonical_version_str version_dict))
          | Some v \<Rightarrow> Inr (parsed_result version_dict debug v)))"
proof -
  note g = re_match_version_re [OF assms]
  have mj: "int_or_None (version_dict ''major'') = Inr (Option.bind (version_dict ''major'') py_int)"
    by (rule int_or_None_numeric) (use g in auto)
  have mn: "int_or_None (version_dict ''minor'') = Inr (Option.bind (version_dict ''minor'') py_int)"
    by (rule int_or_None_numeric) (use g in auto)
  have pt: "int_or_None (version_dict ''patch'') = Inr (Option.bind (version_dict ''patch'') py_int)"
    by (rule int_or_None_numeric) (use g in auto)
  show ?thesis
    by (simp add: parse_stripped_def assms mj mn pt parsed_result_def Let_def
        split: option.splits)
qed

lemma parse_stripped_Inr:
  assumes "parse_stripped pv debug s = Inr r"
  shows "\<exists>version_dict v. re_match version_re s = Some version_dict
           \<and> r = parsed_result version_dict debug v"
proof (cases "re_match version_re s")
  case None
  with assms show ?thesis by (simp add: parse_stripped_None)
next
  case (Some version_dict)
  with assms show ?thesis
    by (auto simp: parse_stripped_Some split: option.splits)
qed

lemma endswith_append: "endswith (s @ p) p"
  by (simp add: endswith_def)

lemma rpartition_debug: "str_rpartition_head CHR ''-'' (s @ ''-debug'') = s"
  by (simp add: str_rpartition_head_def)

lemma debug_suffix_stripped:
  "parse_python_version pv (s @ ''-debug'') = parse_stripped pv True s"
  by (simp only: parse_python_version_def endswith_append rpartition_debug if_True)

lemma parse_python_version_Inr:
  assumes "parse_python_version pv raw = Inr r"
  shows "\<exists>version_dict v.
           re_match version_re
             (if endswith raw ''-debug'' then str_rpartition_head CHR ''-'' raw else raw)
             = Some version_dict
           \<and> r = parsed_result version_dict (endswith raw ''-debug'') v"
  using assms parse_stripped_Inr [of pv _ _ r]
  by (auto simp: parse_python_version_def split: if_splits)

lemma parse_python_version_no_ValueError:
  "parse_python_version pv raw \<noteq> Inl (ValueError x)"
proof -
  have "parse_stripped pv debug s \<noteq> Inl (ValueError x)" for debug s
    by (cases "re_match version_re s")
      (auto simp: parse_stripped_None parse_stripped_Some split: option.splits)
  then show ?thesis by (simp add: parse_python_version_def)
qed

lemma parse_python_version_InvalidPythonVersion:
  "(\<exists>msg. parse_python_version pv raw = Inl (InvalidPythonVersion msg)) \<longleftrightarrow>
     re_match version_re
       (if endswith raw ''-debug'' then str_rpartition_head CHR ''-'' raw else raw) = None"
proof -
  have "(\<exists>msg. parse_stripped pv debug s = Inl (InvalidPythonVersion msg))
          \<longleftrightarrow> re_match version_re s = None" for debug s
    by (cases "re_match version_re s")
      (auto simp: parse_stripped_None parse_stripped_Some split: option.splits)
  then show ?thesis by (simp add: parse_python_version_def)
qed

lemma version_re_rest_self: "st \<in> set (version_re_rest st)"
  unfolding version_re_rest_def
  apply (subst m_seqs_Cons, rule m_seq_mem [OF m_opt_self])
  apply (subst m_seqs_Cons, rule m_seq_mem [OF m_opt_self])
  apply (subst m_seqs_Cons, rule m_seq_mem [OF m_opt_self])
  apply (subst m_seqs_Cons, rule m_seq_mem [OF m_opt_self])
  apply (subst m_seqs_Cons, rule m_seq_mem [OF m_opt_self])
  apply (simp add: m_seqs_Nil m_empty_def)
  done

lemma digits_match:
  assumes "remaining st = c # r" "is_digit c"
  shows "digits st \<noteq> []"
proof -
  let ?st1 = "(consumed st @ [c], r, groups_of st)"
  have "?st1 \<in> set (m_class is_digit st)" using assms by (simp add: m_class_def)
  then have "?st1 \<in> set (digits st)"
    unfolding digits_def m_plus_def by (rule m_seq_mem) (rule m_star_self)
  then show ?thesis by auto
qed

lemma version_re_matches_digit:
  "re_match version_re s = None \<longleftrightarrow> s = [] \<or> \<not> is_digit (hd s)"
proof
  assume "s = [] \<or> \<not> is_digit (hd s)"
  then have "version_re ([], s, []) = []"
    by (intro version_re_fail) (simp add: remaining_def)
  then show "re_match version_re s = None" by (simp add: re_match_None)
next
  assume n: "re_match version_re s = None"
  show "s = [] \<or> \<not> is_digit (hd s)"
  proof (rule ccontr)
    assume "\<not> (s = [] \<or> \<not> is_digit (hd s))"
    then obtain c r where s: "s = c # r" "is_digit c" by (cases s) auto
    then have "digits ([], s, []) \<noteq> []"
      by (intro digits_match [of _ c r]) (simp_all add: remaining_def)
    then have "m_group ''major'' digits ([], s, []) \<noteq> []"
      by (simp add: m_group_def)
    then obtain m where "m \<in> set (m_group ''major'' digits ([], s, []))"
      by (cases "m_group ''major'' digits ([], s, [])") auto
    then have "m \<in> set (version_re ([], s, []))"
      unfolding version_re_split by (rule m_seq_mem) (rule version_re_rest_self)
    then have "version_re ([], s, []) \<noteq> []" by auto
    with n show False by (simp add: re_match_None)
  qed
qed

lemma parse_python_version_returns:
  assumes "re_match version_re
             (if endswith raw ''-debug'' then str_rpartition_head CHR ''-'' raw else raw)
           = Some version_dict"
  shows "(\<exists>r. parse_python_version pv raw = Inr r) \<longleftrightarrow>
           pv (if endswith raw ''-debug'' then str_rpartition_head CHR ''-'' raw else raw) \<noteq> None
           \<or> pv (canonical_version_str version_dict) \<noteq> None"
  using assms
  by (auto simp: parse_python_version_def parse_stripped_Some split: if_splits option.splits)

lemma parse_3_9_1:
  "parse_python_version packaging_parse ''3.9.1'' =
     Inr \<lparr>major = Some 3, minor = Some 9, patch = Some 1, is_postrelease = False,
          is_prerelease = False, is_devrelease = False, is_debug = False,
          version = Some (Version ''3.9.1'')\<rparr>"
  by code_simp

lemma parse_3:
  "parse_python_version packaging_parse ''3'' =
     Inr \<lparr>major = Some 3, minor = None, patch = None, is_postrelease = False,
          is_prerelease = False, is_devrelease = False, is_debug = False,
          version = Some (Version ''3'')\<rparr>"
  by code_simp

lemma parse_2_7_18_debug:
  "parse_python_version packaging_parse ''2.7.18-debug'' =
     Inr \<lparr>major = Some 2, minor = Some 7, patch = Some 18, is_postrelease = False,
          is_prerelease = False, is_devrelease = False, is_debug = True,
          version = Some (Version ''2.7.18'')\<rparr>"
  by code_simp

lemma parse_3_9_debug:
  "parse_python_version packaging_parse ''3.9-debug'' =
     Inr \<lparr>major = Some 3, minor = Some 9, patch = None, is_postrelease = False,
          is_prerelease = False, is_devrelease = False, is_debug = True,
          version = Some (Version ''3.9'')\<rparr>"
  by code_simp

lemma groups_3:
  "re_match version_re ''3'' = Some m \<Longrightarrow> m ''minor'' = None \<and> m ''patch'' = None \<and> m ''major'' = Some ''3''"
proof -
  have "the (re_match version_re ''3'') ''minor'' = None
      \<and> the (re_match version_re ''3'') ''patch'' = None
      \<and> the (re_match version_re ''3'') ''major'' = Some ''3''"
    by code_simp
  then show "re_match version_re ''3'' = Some m \<Longrightarrow> ?thesis" by simp
qed

text \<open>
  C4: whenever \<open>parse_python_version\<close> returns, the \<open>version\<close> of the result is present
  and its \<open>major\<close> is an integer, because the grammar asks for leading digits.
\<close>

theorem parse_python_version_fields_present:
  assumes "parse_python_version parse_version raw = Inr r"
  shows "version r \<noteq> None \<and> major r \<noteq> None"
proof -
  from parse_python_version_Inr [OF assms] obtain version_dict v where
    m: "re_match version_re
          (if endswith raw ''-debug'' then str_rpartition_head CHR ''-'' raw else raw)
          = Some version_dict"
    and r: "r = parsed_result version_dict (endswith raw ''-debug'') v"
    by blast
  from re_match_version_re [OF m] obtain x where
    "version_dict ''major'' = Some x" "numeric x" by blast
  then have "Option.bind (version_dict ''major'') py_int \<noteq> None"
    using numeric_py_int by simp
  with r show ?thesis by (simp add: parsed_result_def)
qed

theorem parse_python_version_fields_present_witness:
  "parse_python_version packaging_parse ''3.9.1'' =
     Inr \<lparr>major = Some 3, minor = Some 9, patch = Some 1, is_postrelease = False,
          is_prerelease = False, is_devrelease = False, is_debug = False,
          version = Some (Version ''3.9.1'')\<rparr>
   \<and> version \<lparr>major = Some 3, minor = Some 9, patch = Some 1, is_postrelease = False,
          is_prerelease = False, is_devrelease = False, is_debug = False,
          version = Some (Version ''3.9.1'')\<rparr> \<noteq> None
   \<and> major \<lparr>major = Some (3::int), minor = Some 9, patch = Some 1, is_postrelease = False,
          is_prerelease = False, is_devrelease = False, is_debug = False,
          version = Some (Version ''3.9.1'')\<rparr> \<noteq> None"
  using parse_3_9_1 parse_python_version_fields_present [OF parse_3_9_1]
  by simp

text \<open>
  C9: when \<open>parse_python_version\<close> returns, the grammar matched the stripped string; a
  \<open>minor\<close> or \<open>patch\<close> group that took no part gives \<open>None\<close>, not 0, and each of
  \<open>major\<close>, \<open>minor\<close>, \<open>patch\<close> whose group took part is the integer that the group
  spells.
\<close>

theorem parse_python_version_absent_groups:
  assumes "parse_python_version parse_version raw = Inr r"
  shows "\<exists>version_dict.
      re_match version_re
        (if endswith raw ''-debug'' then str_rpartition_head CHR ''-'' raw else raw)
        = Some version_dict
    \<and> (version_dict ''minor'' = None \<longrightarrow> minor r = None)
    \<and> (version_dict ''patch'' = None \<longrightarrow> patch r = None)
    \<and> (\<forall>x. version_dict ''major'' = Some x \<longrightarrow> (\<exists>i. py_int x = Some i \<and> major r = Some i))
    \<and> (\<forall>x. version_dict ''minor'' = Some x \<longrightarrow> (\<exists>i. py_int x = Some i \<and> minor r = Some i))
    \<and> (\<forall>x. version_dict ''patch'' = Some x \<longrightarrow> (\<exists>i. py_int x = Some i \<and> patch r = Some i))"
proof -
  from parse_python_version_Inr [OF assms] obtain version_dict v where
    m: "re_match version_re
          (if endswith raw ''-debug'' then str_rpartition_head CHR ''-'' raw else raw)
          = Some version_dict"
    and r: "r = parsed_result version_dict (endswith raw ''-debug'') v"
    by blast
  note g = re_match_version_re [OF m]
  have n: "\<And>k x. k = ''major'' \<or> k = ''minor'' \<or> k = ''patch'' \<Longrightarrow> version_dict k = Some x
            \<Longrightarrow> \<exists>i. py_int x = Some i"
    using g numeric_py_int by (metis not_None_eq option.inject)
  have mj: "major r = Option.bind (version_dict ''major'') py_int"
    and mn: "minor r = Option.bind (version_dict ''minor'') py_int"
    and pt: "patch r = Option.bind (version_dict ''patch'') py_int"
    by (simp_all add: r parsed_result_def)
  have "(version_dict ''minor'' = None \<longrightarrow> minor r = None)
    \<and> (version_dict ''patch'' = None \<longrightarrow> patch r = None)
    \<and> (\<forall>x. version_dict ''major'' = Some x \<longrightarrow> (\<exists>i. py_int x = Some i \<and> major r = Some i))
    \<and> (\<forall>x. version_dict ''minor'' = Some x \<longrightarrow> (\<exists>i. py_int x = Some i \<and> minor r = Some i))
    \<and> (\<forall>x. version_dict ''patch'' = Some x \<longrightarrow> (\<exists>i. py_int x = Some i \<and> patch r = Some i))"
    using n [of "''major''"] n [of "''minor''"] n [of "''patch''"]
    by (auto simp: mj mn pt)
  with m show ?thesis by (intro exI [of _ version_dict] conjI) simp_all
qed

theorem parse_python_version_absent_groups_witness:
  "parse_python_version packaging_parse ''3'' =
     Inr \<lparr>major = Some 3, minor = None, patch = None, is_postrelease = False,
          is_prerelease = False, is_devrelease = False, is_debug = False,
          version = Some (Version ''3'')\<rparr>
   \<and> (\<exists>version_dict. re_match version_re ''3'' = Some version_dict
        \<and> version_dict ''minor'' = None \<and> version_dict ''patch'' = None
        \<and> version_dict ''major'' = Some ''3'' \<and> py_int ''3'' = Some 3)"
proof -
  have i: "py_int ''3'' = Some 3" by code_simp
  have e: "\<not> endswith ''3'' ''-debug''" by (simp add: endswith_def)
  from parse_python_version_absent_groups [OF parse_3] e obtain version_dict where
    m: "re_match version_re ''3'' = Some version_dict" by auto
  from groups_3 [OF m] m i parse_3 show ?thesis by blast
qed

text \<open>
  C8: for an input that ends in \<open>-debug\<close> the parser works on the text before that
  suffix with \<open>is_debug\<close> set, so every result has \<open>is_debug\<close> true; \<open>2.7.18-debug\<close>
  gives \<open>is_debug\<close>, major 2, minor 7, patch 18.
\<close>

theorem parse_python_version_debug:
  "parse_python_version parse_version (s @ ''-debug'') = parse_stripped parse_version True s
   \<and> (\<forall>r. parse_python_version parse_version (s @ ''-debug'') = Inr r \<longrightarrow> is_debug r)
   \<and> parse_python_version packaging_parse ''2.7.18-debug'' =
       Inr \<lparr>major = Some 2, minor = Some 7, patch = Some 18, is_postrelease = False,
            is_prerelease = False, is_devrelease = False, is_debug = True,
            version = Some (Version ''2.7.18'')\<rparr>"
proof -
  have a: "parse_python_version parse_version (s @ ''-debug'') = parse_stripped parse_version True s"
    by (rule debug_suffix_stripped)
  have b: "is_debug r" if "parse_python_version parse_version (s @ ''-debug'') = Inr r" for r
  proof -
    from that a have "parse_stripped parse_version True s = Inr r" by simp
    from parse_stripped_Inr [OF this] show ?thesis by (auto simp: parsed_result_def)
  qed
  from a b parse_2_7_18_debug show ?thesis by blast
qed

theorem parse_python_version_debug_witness:
  "parse_python_version packaging_parse (''3.9'' @ ''-debug'') =
     Inr \<lparr>major = Some 3, minor = Some 9, patch = None, is_postrelease = False,
          is_prerelease = False, is_devrelease = False, is_debug = True,
          version = Some (Version ''3.9'')\<rparr>
   \<and> parse_stripped packaging_parse True ''3.9'' =
     Inr \<lparr>major = Some 3, minor = Some 9, patch = None, is_postrelease = False,
          is_prerelease = False, is_devrelease = False, is_debug = True,
          version = Some (Version ''3.9'')\<rparr>"
  using parse_python_version_debug [of packaging_parse "''3.9''"] parse_3_9_debug
  by simp

text \<open>
  C2: the claim asks that every input that matches the grammar is parsed, the canonical
  string of the fallback being always accepted by the strict normaliser. The code does not
  achieve it: \<open>3.9.0a1.2\<close> matches the grammar, the normaliser rejects it, and the
  canonical string \<open>3.9.0.a1.2\<close> is rejected too, so that \<^verbatim>\<open>InvalidVersion\<close> leaves the
  function; for \<open>3.9.0a1.post1x\<close> the canonical string is \<open>3.9.0.a1..post1.1\<close>, where
  the keys \<open>postdev\<close>, \<open>post\<close> and \<open>dev\<close> repeat one another.
\<close>

theorem parse_python_version_InvalidVersion_escapes:
  "re_match version_re ''3.9.0a1.2'' \<noteq> None
   \<and> packaging_parse ''3.9.0a1.2'' = None
   \<and> canonical_version_str (the (re_match version_re ''3.9.0a1.2'')) = ''3.9.0.a1.2''
   \<and> packaging_parse ''3.9.0.a1.2'' = None
   \<and> parse_python_version packaging_parse ''3.9.0a1.2'' = Inl (InvalidVersion ''3.9.0.a1.2'')
   \<and> parse_python_version packaging_parse ''3.9.0a1.post1x''
       = Inl (InvalidVersion ''3.9.0.a1..post1.1'')"
  by code_simp

subsection \<open>Known executables\<close>

lemma rfind_from_found:
  "rfind_from c s k = r \<Longrightarrow> r \<noteq> -1 \<Longrightarrow> 0 \<le> k
     \<Longrightarrow> k \<le> r \<and> r < k + int (length s) \<and> s ! nat (r - k) = c"
proof (induction s arbitrary: k r)
  case Nil
  then show ?case by simp
next
  case (Cons x xs)
  show ?case
  proof (cases "rfind_from c xs (k + 1) = -1")
    case True
    with Cons.prems have "x = c" "r = k" by (auto simp: Let_def split: if_splits)
    then show ?thesis by simp
  next
    case False
    with Cons.prems have r: "rfind_from c xs (k + 1) = r" by (simp add: Let_def)
    from Cons.IH [OF r] Cons.prems have
      "k + 1 \<le> r \<and> r < k + 1 + int (length xs) \<and> xs ! nat (r - (k + 1)) = c" by simp
    moreover from this have "nat (r - k) = Suc (nat (r - (k + 1)))" by linarith
    ultimately show ?thesis by simp
  qed
qed

lemma path_suffix_dot: "path_suffix path \<noteq> [] \<Longrightarrow> hd (path_suffix path) = CHR ''.''"
proof -
  assume a: "path_suffix path \<noteq> []"
  let ?name = "path_name path"
  let ?i = "str_rfind ?name CHR ''.''"
  from a have i: "0 < ?i" "?i < int (length ?name) - 1" and s: "path_suffix path = drop (nat ?i) ?name"
    by (auto simp: path_suffix_def Let_def split: if_splits)
  from i have "?i \<noteq> -1" by simp
  from rfind_from_found [of "CHR ''.''" ?name 0 ?i, OF _ this]
  have "?name ! nat ?i = CHR ''.''" by (simp add: str_rfind_def)
  moreover from i have "nat ?i < length ?name" by simp
  ultimately show ?thesis unfolding s by (simp add: hd_drop_conv_nth)
qed

lemma KNOWN_EXTS_default:
  "PATHEXT env = [] \<Longrightarrow> e \<in> set (KNOWN_EXTS env) \<Longrightarrow> e = [] \<or> hd e \<noteq> CHR ''.''"
  by (auto simp: KNOWN_EXTS_def split: if_splits)

lemma empty_in_KNOWN_EXTS: "[] \<in> set (KNOWN_EXTS env)"
  by (simp add: KNOWN_EXTS_def)

lemma path_is_known_executable_default:
  assumes "PATHEXT env = []"
  shows "path_is_known_executable env fs path \<longleftrightarrow>
     access_X_OK fs (path_str path)
     \<or> (access_R_OK fs (path_str path) \<and> path_suffix path = [])"
proof -
  have "path_suffix path \<in> set (KNOWN_EXTS env) \<longleftrightarrow> path_suffix path = []"
    using KNOWN_EXTS_default [OF assms, of "path_suffix path"] path_suffix_dot [of path]
      empty_in_KNOWN_EXTS [of env]
    by auto
  then show ?thesis
    by (simp add: path_is_known_executable_def path_is_executable_def)
qed

text \<open>
  C1: the claim asks that a readable file whose extension is in \<^verbatim>\<open>KNOWN_EXTS\<close> is a
  known executable. The code compares \<^verbatim>\<open>path.suffix\<close>, which keeps its dot, with the
  entries of \<^verbatim>\<open>KNOWN_EXTS\<close>, which have none: \<open>script.py\<close>, readable and not
  executable, has the extension \<open>py\<close> of the set and is rejected.
\<close>

theorem path_is_known_executable_dotted_suffix:
  "''py'' \<in> set (KNOWN_EXTS posix_env)
   \<and> path_suffix \<lparr>path_str = ''/opt/tools/script.py'', path_name = ''script.py''\<rparr> = ''.py''
   \<and> ''.py'' \<notin> set (KNOWN_EXTS posix_env)
   \<and> \<not> path_is_known_executable posix_env
         \<lparr>access_X_OK = (\<lambda>p. False), access_R_OK = (\<lambda>p. True)\<rparr>
         \<lparr>path_str = ''/opt/tools/script.py'', path_name = ''script.py''\<rparr>"
  by code_simp

end
